theory Spec2Isabelle
  imports Main "HOL-Library.Word"
begin

section \<open>Data model of UnicodeConvAtlStd.hpp\<close>

text \<open>
  \<open>std::string\<close> holds UTF-8 text as a sequence of \<open>char\<close> (8 bits), \<open>CString\<close>
  holds UTF-16 text as a sequence of \<open>wchar_t\<close> (16 bits), and the Win32 error code
  is a \<open>DWORD\<close> (32 bits).
\<close>

type_synonym byte = "8 word"
type_synonym wchar = "16 word"
type_synonym DWORD = "32 word"

text \<open>\<open>UnicodeConversionException::ConversionType\<close>.\<close>

datatype ConversionType = FromUtf16ToUtf8 | FromUtf8ToUtf16

text \<open>
  The two exceptions the header throws: \<open>UnicodeConversionException\<close> with its error code,
  conversion type and message, and \<open>std::overflow_error\<close> with its message.
\<close>

datatype exn =
  UnicodeConversionException DWORD ConversionType string
  | overflow_error string

fun GetErrorCode :: "exn \<Rightarrow> DWORD option" where
  "GetErrorCode (UnicodeConversionException errorCode conversionType message) = Some errorCode"
| "GetErrorCode (overflow_error message) = None"

fun GetConversionType :: "exn \<Rightarrow> ConversionType option" where
  "GetConversionType (UnicodeConversionException errorCode conversionType message) =
     Some conversionType"
| "GetConversionType (overflow_error message) = None"

section \<open>The platform calls\<close>

text \<open>
  \<open>WideCharToMultiByte\<close> and \<open>MultiByteToWideChar\<close> belong to Win32, not to the header,
  so the converters take them as a parameter. A call receives the code page, the flags,
  the source text, the source length and the size of the destination; it answers with
  its return value, the units it stored at the front of the destination, and the code
  that \<open>GetLastError\<close> reports when the return value is 0. The return value is an
  \<open>int\<close> in C; it is a count of units or 0, never negative, so it is a \<open>nat\<close> here.
\<close>

record 'u api_result =
  ret :: nat
  written :: "'u list"
  err :: DWORD

record platform =
  WideCharToMultiByte :: "nat \<Rightarrow> DWORD \<Rightarrow> wchar list \<Rightarrow> int \<Rightarrow> int \<Rightarrow> byte api_result"
  MultiByteToWideChar :: "nat \<Rightarrow> DWORD \<Rightarrow> byte list \<Rightarrow> int \<Rightarrow> int \<Rightarrow> wchar api_result"

text \<open>
  What a call can change outside its arguments: the thread's last-error code, and a
  counter of the platform calls made so far. \<open>fresh\<close> is the content of memory that
  \<open>CString::GetBuffer\<close> hands out before anything is stored in it.
\<close>

record world =
  last_error :: DWORD
  platform_calls :: nat
  fresh :: "nat \<Rightarrow> wchar"

definition GetLastError :: "world \<Rightarrow> DWORD" where
  "GetLastError w = last_error w"

text \<open>
  Storing into a destination never changes its size: the stored units replace the front
  of the buffer, and what the destination cannot hold is not kept.
\<close>

definition store :: "'u list \<Rightarrow> 'u list \<Rightarrow> 'u list" where
  "store buf us = take (length buf) (us @ drop (length us) buf)"

definition after_call :: "'u api_result \<Rightarrow> world \<Rightarrow> world" where
  "after_call r w =
     w\<lparr>last_error := (if ret r = 0 then err r else last_error w),
       platform_calls := Suc (platform_calls w)\<rparr>"

text \<open>
  A call as the converters make it: \<open>dst = None\<close> is the null destination of the sizing
  pass. The answer is the return value, the destination after the call, and the world
  after the call.
\<close>

definition call_WideCharToMultiByte ::
  "platform \<Rightarrow> nat \<Rightarrow> DWORD \<Rightarrow> wchar list \<Rightarrow> int \<Rightarrow> byte list option \<Rightarrow> int \<Rightarrow> world
     \<Rightarrow> nat \<times> byte list \<times> world" where
  "call_WideCharToMultiByte P cp flags src srcLen dst dstSize w =
     (let r = WideCharToMultiByte P cp flags src srcLen dstSize
      in (ret r,
          (case dst of None \<Rightarrow> [] | Some buf \<Rightarrow> store buf (written r)),
          after_call r w))"

definition call_MultiByteToWideChar ::
  "platform \<Rightarrow> nat \<Rightarrow> DWORD \<Rightarrow> byte list \<Rightarrow> int \<Rightarrow> wchar list option \<Rightarrow> int \<Rightarrow> world
     \<Rightarrow> nat \<times> wchar list \<times> world" where
  "call_MultiByteToWideChar P cp flags src srcLen dst dstSize w =
     (let r = MultiByteToWideChar P cp flags src srcLen dstSize
      in (ret r,
          (case dst of None \<Rightarrow> [] | Some buf \<Rightarrow> store buf (written r)),
          after_call r w))"

text \<open>Constants of the Windows SDK headers.\<close>

definition CP_UTF8 :: nat where
  "CP_UTF8 = 65001"

definition WC_ERR_INVALID_CHARS :: DWORD where
  "WC_ERR_INVALID_CHARS = 0x80"

definition MB_ERR_INVALID_CHARS :: DWORD where
  "MB_ERR_INVALID_CHARS = 0x8"

definition INT_MAX :: int where
  "INT_MAX = 2147483647"

section \<open>The header's functions\<close>

text \<open>
  \<open>Details::SafeSizeToInt\<close>: the comparison is made in \<open>size_t\<close>, so nothing wraps
  before the check.
\<close>

definition SafeSizeToInt :: "nat \<Rightarrow> exn + int" where
  "SafeSizeToInt sizeValue =
     (let kIntMax = INT_MAX
      in if sizeValue > nat kIntMax
         then Inl (overflow_error ''size_t value is too big to fit into an int.'')
         else Inr (int sizeValue))"

text \<open>
  \<open>CString::GetLength\<close> returns an \<open>int\<close>; a \<open>CString\<close> never holds more than
  \<open>INT_MAX\<close> units, so the length is read without a check.
\<close>

definition GetLength :: "wchar list \<Rightarrow> int" where
  "GetLength s = int (length s)"

text \<open>\<open>std::string utf8(utf8Length, ' ')\<close>.\<close>

definition space_filled :: "nat \<Rightarrow> byte list" where
  "space_filled n = replicate n 0x20"

text \<open>\<open>CString::GetBuffer(n)\<close> and \<open>CString::ReleaseBuffer(n)\<close>.\<close>

definition GetBuffer :: "nat \<Rightarrow> world \<Rightarrow> wchar list" where
  "GetBuffer n w = map (fresh w) [0..<n]"

definition ReleaseBuffer :: "nat \<Rightarrow> wchar list \<Rightarrow> wchar list" where
  "ReleaseBuffer n buf = take n buf"

definition ToUtf8 :: "platform \<Rightarrow> wchar list \<Rightarrow> world \<Rightarrow> (exn + byte list) \<times> world" where
  "ToUtf8 P utf16 w0 =
     (if utf16 = [] then (Inr [], w0)
      else
        let kFlags = WC_ERR_INVALID_CHARS;
            utf16Length = GetLength utf16;
            (utf8Length, unused, w1) =
               call_WideCharToMultiByte P CP_UTF8 kFlags utf16 utf16Length None 0 w0
        in if utf8Length = 0
           then (Inl (UnicodeConversionException (GetLastError w1) FromUtf16ToUtf8
                   ''Can't get result UTF-8 string length (WideCharToMultiByte failed).''), w1)
           else
             let utf8 = space_filled utf8Length;
                 (result, utf8', w2) =
                    call_WideCharToMultiByte P CP_UTF8 kFlags utf16 utf16Length
                      (Some utf8) (int utf8Length) w1
             in if result = 0
                then (Inl (UnicodeConversionException (GetLastError w2) FromUtf16ToUtf8
                        ''Can't convert from UTF-16 to UTF-8 string (WideCharToMultiByte failed).''),
                      w2)
                else (Inr utf8', w2))"

definition ToUtf16 :: "platform \<Rightarrow> byte list \<Rightarrow> world \<Rightarrow> (exn + wchar list) \<times> world" where
  "ToUtf16 P utf8 w0 =
     (if utf8 = [] then (Inr [], w0)
      else
        let kFlags = MB_ERR_INVALID_CHARS
        in case SafeSizeToInt (length utf8) of
             Inl e \<Rightarrow> (Inl e, w0)
           | Inr utf8Length \<Rightarrow>
               let (utf16Length, unused, w1) =
                      call_MultiByteToWideChar P CP_UTF8 kFlags utf8 utf8Length None 0 w0
               in if utf16Length = 0
                  then (Inl (UnicodeConversionException (GetLastError w1) FromUtf8ToUtf16
                          ''Can't get result UTF-16 string length (MultiByteToWideChar failed).''),
                        w1)
                  else
                    let utf16Buffer = GetBuffer utf16Length w1;
                        (result, utf16Buffer', w2) =
                           call_MultiByteToWideChar P CP_UTF8 kFlags utf8 utf8Length
                             (Some utf16Buffer) (int utf16Length) w1
                    in if result = 0
                       then (Inl (UnicodeConversionException (GetLastError w2) FromUtf8ToUtf16
                               ''Can't convert from UTF-8 to UTF-16 string (MultiByteToWideChar failed).''),
                             w2)
                       else (Inr (ReleaseBuffer utf16Length utf16Buffer'), w2))"

text \<open>The return value of the sizing pass: the first call, with no destination.\<close>

definition sizing_utf8 :: "platform \<Rightarrow> wchar list \<Rightarrow> nat" where
  "sizing_utf8 P utf16 =
     ret (WideCharToMultiByte P CP_UTF8 WC_ERR_INVALID_CHARS utf16 (GetLength utf16) 0)"

definition sizing_utf16 :: "platform \<Rightarrow> byte list \<Rightarrow> nat" where
  "sizing_utf16 P utf8 =
     ret (MultiByteToWideChar P CP_UTF8 MB_ERR_INVALID_CHARS utf8 (int (length utf8)) 0)"

text \<open>The return value of the second pass, into a destination of \<open>n\<close> units.\<close>

definition converting_utf8 :: "platform \<Rightarrow> wchar list \<Rightarrow> nat \<Rightarrow> nat" where
  "converting_utf8 P utf16 n =
     ret (WideCharToMultiByte P CP_UTF8 WC_ERR_INVALID_CHARS utf16 (GetLength utf16) (int n))"

definition converting_utf16 :: "platform \<Rightarrow> byte list \<Rightarrow> nat \<Rightarrow> nat" where
  "converting_utf16 P utf8 n =
     ret (MultiByteToWideChar P CP_UTF8 MB_ERR_INVALID_CHARS utf8 (int (length utf8)) (int n))"

text \<open>The units the second pass stored, into a destination of \<open>n\<close> units.\<close>

definition stored_utf8 :: "platform \<Rightarrow> wchar list \<Rightarrow> nat \<Rightarrow> byte list" where
  "stored_utf8 P utf16 n =
     written (WideCharToMultiByte P CP_UTF8 WC_ERR_INVALID_CHARS utf16 (GetLength utf16) (int n))"

definition stored_utf16 :: "platform \<Rightarrow> byte list \<Rightarrow> nat \<Rightarrow> wchar list" where
  "stored_utf16 P utf8 n =
     written (MultiByteToWideChar P CP_UTF8 MB_ERR_INVALID_CHARS utf8 (int (length utf8)) (int n))"

section \<open>Unicode transformation formats\<close>

text \<open>
  Modelled from the spec: UTF-8 and UTF-16 as its glossary names them and the Unicode
  standard defines them. The header holds no transcoder of its own; these functions are
  what the reference platform below computes.
  Code points and code units are read as natural numbers. A scalar value is a code point
  up to U+10FFFF that is not a surrogate.
\<close>

definition is_high :: "nat \<Rightarrow> bool" where
  "is_high u \<longleftrightarrow> 0xD800 \<le> u \<and> u < 0xDC00"

definition is_low :: "nat \<Rightarrow> bool" where
  "is_low u \<longleftrightarrow> 0xDC00 \<le> u \<and> u < 0xE000"

definition is_scalar :: "nat \<Rightarrow> bool" where
  "is_scalar c \<longleftrightarrow> c < 0x110000 \<and> \<not> is_high c \<and> \<not> is_low c"

definition is_cont :: "nat \<Rightarrow> bool" where
  "is_cont b \<longleftrightarrow> 0x80 \<le> b \<and> b < 0xC0"

text \<open>UTF-8: one to four bytes for a scalar value.\<close>

definition utf8_enc1 :: "nat \<Rightarrow> nat list" where
  "utf8_enc1 c =
     (if c < 0x80 then [c]
      else if c < 0x800 then [0xC0 + c div 64, 0x80 + c mod 64]
      else if c < 0x10000 then [0xE0 + c div 4096, 0x80 + c div 64 mod 64, 0x80 + c mod 64]
      else [0xF0 + c div 262144, 0x80 + c div 4096 mod 64, 0x80 + c div 64 mod 64,
            0x80 + c mod 64])"

definition utf8_enc :: "nat list \<Rightarrow> nat list" where
  "utf8_enc cs = concat (map utf8_enc1 cs)"

text \<open>
  Reading one scalar value from the front of a byte sequence, with the rest of the
  sequence. Only the well-formed sequences of the Unicode standard are read: no overlong
  form, no encoded surrogate, nothing above U+10FFFF, no missing or stray continuation
  byte.
\<close>

fun utf8_dec1 :: "nat list \<Rightarrow> (nat \<times> nat list) option" where
  "utf8_dec1 [] = None"
| "utf8_dec1 (b0 # bs) =
     (if b0 < 0x80 then Some (b0, bs)
      else if 0xC2 \<le> b0 \<and> b0 < 0xE0 then
        (case bs of
           b1 # r \<Rightarrow>
             if is_cont b1 then Some ((b0 - 0xC0) * 64 + (b1 - 0x80), r) else None
         | _ \<Rightarrow> None)
      else if 0xE0 \<le> b0 \<and> b0 < 0xF0 then
        (case bs of
           b1 # b2 # r \<Rightarrow>
             if is_cont b1 \<and> is_cont b2 \<and> (b0 = 0xE0 \<longrightarrow> 0xA0 \<le> b1)
                \<and> (b0 = 0xED \<longrightarrow> b1 < 0xA0)
             then Some (((b0 - 0xE0) * 64 + (b1 - 0x80)) * 64 + (b2 - 0x80), r)
             else None
         | _ \<Rightarrow> None)
      else if 0xF0 \<le> b0 \<and> b0 < 0xF5 then
        (case bs of
           b1 # b2 # b3 # r \<Rightarrow>
             if is_cont b1 \<and> is_cont b2 \<and> is_cont b3 \<and> (b0 = 0xF0 \<longrightarrow> 0x90 \<le> b1)
                \<and> (b0 = 0xF4 \<longrightarrow> b1 < 0x90)
             then Some ((((b0 - 0xF0) * 64 + (b1 - 0x80)) * 64 + (b2 - 0x80)) * 64
                         + (b3 - 0x80), r)
             else None
         | _ \<Rightarrow> None)
      else None)"

text \<open>Strict decoding: the first ill-formed sequence makes the whole input fail.\<close>

function utf8_dec :: "nat list \<Rightarrow> nat list option" where
  "utf8_dec [] = Some []"
| "utf8_dec (b # bs) =
     (case utf8_dec1 (b # bs) of
        None \<Rightarrow> None
      | Some (c, r) \<Rightarrow> (case utf8_dec r of None \<Rightarrow> None | Some cs \<Rightarrow> Some (c # cs)))"
  by pat_completeness auto
termination
  by (relation "measure length") (auto split: if_splits list.splits)

text \<open>Lenient decoding: a byte that starts no well-formed sequence becomes U+FFFD.\<close>

function utf8_dec_lenient :: "nat list \<Rightarrow> nat list" where
  "utf8_dec_lenient [] = []"
| "utf8_dec_lenient (b # bs) =
     (case utf8_dec1 (b # bs) of
        None \<Rightarrow> 0xFFFD # utf8_dec_lenient bs
      | Some (c, r) \<Rightarrow> c # utf8_dec_lenient r)"
  by pat_completeness auto
termination
  by (relation "measure length") (auto split: if_splits list.splits)

declare utf8_dec1.simps [simp del]

text \<open>UTF-16: one unit, or a high and a low surrogate for a code point above U+FFFF.\<close>

definition utf16_enc1 :: "nat \<Rightarrow> nat list" where
  "utf16_enc1 c =
     (if c < 0x10000 then [c]
      else [0xD800 + (c - 0x10000) div 1024, 0xDC00 + (c - 0x10000) mod 1024])"

definition utf16_enc :: "nat list \<Rightarrow> nat list" where
  "utf16_enc cs = concat (map utf16_enc1 cs)"

fun utf16_dec :: "nat list \<Rightarrow> nat list option" where
  "utf16_dec [] = Some []"
| "utf16_dec [u] = (if is_high u \<or> is_low u then None else Some [u])"
| "utf16_dec (u # v # r) =
     (if is_high u then
        (if is_low v then
           (case utf16_dec r of
              None \<Rightarrow> None
            | Some cs \<Rightarrow> Some ((0x10000 + (u - 0xD800) * 1024 + (v - 0xDC00)) # cs))
         else None)
      else if is_low u then None
      else (case utf16_dec (v # r) of None \<Rightarrow> None | Some cs \<Rightarrow> Some (u # cs)))"

fun utf16_dec_lenient :: "nat list \<Rightarrow> nat list" where
  "utf16_dec_lenient [] = []"
| "utf16_dec_lenient [u] = (if is_high u \<or> is_low u then [0xFFFD] else [u])"
| "utf16_dec_lenient (u # v # r) =
     (if is_high u then
        (if is_low v
         then (0x10000 + (u - 0xD800) * 1024 + (v - 0xDC00)) # utf16_dec_lenient r
         else 0xFFFD # utf16_dec_lenient (v # r))
      else if is_low u then 0xFFFD # utf16_dec_lenient (v # r)
      else u # utf16_dec_lenient (v # r))"

text \<open>The same on the units of the two string types.\<close>

definition utf8_decode :: "byte list \<Rightarrow> nat list option" where
  "utf8_decode bs = utf8_dec (map unat bs)"

definition utf8_encode :: "nat list \<Rightarrow> byte list" where
  "utf8_encode cs = map of_nat (utf8_enc cs)"

definition utf16_decode :: "wchar list \<Rightarrow> nat list option" where
  "utf16_decode us = utf16_dec (map unat us)"

definition utf16_encode :: "nat list \<Rightarrow> wchar list" where
  "utf16_encode cs = map of_nat (utf16_enc cs)"

definition utf8_valid :: "byte list \<Rightarrow> bool" where
  "utf8_valid bs \<longleftrightarrow> utf8_decode bs \<noteq> None"

definition utf16_valid :: "wchar list \<Rightarrow> bool" where
  "utf16_valid us \<longleftrightarrow> utf16_decode us \<noteq> None"

text \<open>
  A UTF-16 sequence contains an unpaired high surrogate when some unit in
  \<open>D800..DBFF\<close> is the last unit or is followed by a unit that is not in
  \<open>DC00..DFFF\<close>.
\<close>

fun unpaired_high_surrogate :: "wchar list \<Rightarrow> bool" where
  "unpaired_high_surrogate [] = False"
| "unpaired_high_surrogate [u] = is_high (unat u)"
| "unpaired_high_surrogate (u # v # r) =
     ((is_high (unat u) \<and> \<not> is_low (unat v)) \<or> unpaired_high_surrogate (v # r))"

text \<open>The number of bytes of the UTF-8 form of a UTF-16 sequence (0 when it has none).\<close>

definition utf8_size :: "wchar list \<Rightarrow> nat" where
  "utf8_size us = (case utf16_decode us of None \<Rightarrow> 0 | Some cs \<Rightarrow> length (utf8_encode cs))"

section \<open>A reference platform\<close>

text \<open>Error codes of the Windows SDK headers.\<close>

definition ERROR_SUCCESS :: DWORD where
  "ERROR_SUCCESS = 0"

definition ERROR_INVALID_PARAMETER :: DWORD where
  "ERROR_INVALID_PARAMETER = 87"

definition ERROR_INSUFFICIENT_BUFFER :: DWORD where
  "ERROR_INSUFFICIENT_BUFFER = 122"

definition ERROR_INVALID_FLAGS :: DWORD where
  "ERROR_INVALID_FLAGS = 1004"

definition ERROR_NO_UNICODE_TRANSLATION :: DWORD where
  "ERROR_NO_UNICODE_TRANSLATION = 1113"

definition failed :: "DWORD \<Rightarrow> 'u api_result" where
  "failed e = \<lparr>ret = 0, written = [], err = e\<rparr>"

text \<open>
  With a destination size of 0 a call only reports the size the output needs; otherwise
  it stores the output, unless the destination is too small for it.
\<close>

definition deliver :: "'u list \<Rightarrow> int \<Rightarrow> 'u api_result" where
  "deliver out dstSize =
     (if dstSize = 0 then \<lparr>ret = length out, written = [], err = ERROR_SUCCESS\<rparr>
      else if dstSize < int (length out) then failed ERROR_INSUFFICIENT_BUFFER
      else \<lparr>ret = length out, written = out, err = ERROR_SUCCESS\<rparr>)"

text \<open>
  Modelled from the spec: the host platform's transcoding primitive, which is Win32 code
  and no part of the header. The spec gives its contract: given a source buffer, an
  encoding tag and a strict-validation flag, it either reports the required destination
  length or transcodes into a destination of that length, and signals failure through a
  retrievable last-error code; in strict mode malformed input is rejected, otherwise
  replacement characters are substituted. The model covers the code page \<open>CP_UTF8\<close>
  and a source length that is given and positive, which is how the converters call it;
  the flags are 0 (lenient) or the \<open>ERR_INVALID_CHARS\<close> flag of the call (strict).
\<close>

definition win32_WideCharToMultiByte ::
  "nat \<Rightarrow> DWORD \<Rightarrow> wchar list \<Rightarrow> int \<Rightarrow> int \<Rightarrow> byte api_result" where
  "win32_WideCharToMultiByte cp flags src srcLen dstSize =
     (if cp \<noteq> CP_UTF8 \<or> srcLen \<le> 0 \<or> dstSize < 0 then failed ERROR_INVALID_PARAMETER
      else if flags \<noteq> 0 \<and> flags \<noteq> WC_ERR_INVALID_CHARS then failed ERROR_INVALID_FLAGS
      else
        let units = map unat (take (nat srcLen) src)
        in case (if flags = 0 then Some (utf16_dec_lenient units) else utf16_dec units) of
             None \<Rightarrow> failed ERROR_NO_UNICODE_TRANSLATION
           | Some cs \<Rightarrow> deliver (utf8_encode cs) dstSize)"

text \<open>
  Modelled from the spec: the same primitive in the other direction. The counts of both
  are natural numbers; what the real calls do when the output would need more than
  \<open>INT_MAX\<close> units is not said anywhere, and nothing below rests on it.
\<close>

definition win32_MultiByteToWideChar ::
  "nat \<Rightarrow> DWORD \<Rightarrow> byte list \<Rightarrow> int \<Rightarrow> int \<Rightarrow> wchar api_result" where
  "win32_MultiByteToWideChar cp flags src srcLen dstSize =
     (if cp \<noteq> CP_UTF8 \<or> srcLen \<le> 0 \<or> dstSize < 0 then failed ERROR_INVALID_PARAMETER
      else if flags \<noteq> 0 \<and> flags \<noteq> MB_ERR_INVALID_CHARS then failed ERROR_INVALID_FLAGS
      else
        let units = map unat (take (nat srcLen) src)
        in case (if flags = 0 then Some (utf8_dec_lenient units) else utf8_dec units) of
             None \<Rightarrow> failed ERROR_NO_UNICODE_TRANSLATION
           | Some cs \<Rightarrow> deliver (utf16_encode cs) dstSize)"

definition win32 :: platform where
  "win32 = \<lparr>WideCharToMultiByte = win32_WideCharToMultiByte,
            MultiByteToWideChar = win32_MultiByteToWideChar\<rparr>"

text \<open>
  A platform whose second pass reports fewer units than its sizing pass announced, and
  stores only those: three units announced, one stored.
\<close>

definition short_platform :: platform where
  "short_platform =
     \<lparr>WideCharToMultiByte = (\<lambda>cp flags src srcLen dstSize.
          if dstSize = 0 then \<lparr>ret = 3, written = [], err = ERROR_SUCCESS\<rparr>
          else \<lparr>ret = 1, written = [0x41], err = ERROR_SUCCESS\<rparr>),
      MultiByteToWideChar = (\<lambda>cp flags src srcLen dstSize.
          if dstSize = 0 then \<lparr>ret = 3, written = [], err = ERROR_SUCCESS\<rparr>
          else \<lparr>ret = 1, written = [0x41], err = ERROR_SUCCESS\<rparr>)\<rparr>"

text \<open>
  A platform whose sizing pass announces three units and whose second pass fails.
\<close>

definition failing_platform :: platform where
  "failing_platform =
     \<lparr>WideCharToMultiByte = (\<lambda>cp flags src srcLen dstSize.
          if dstSize = 0 then \<lparr>ret = 3, written = [], err = ERROR_SUCCESS\<rparr>
          else failed ERROR_INSUFFICIENT_BUFFER),
      MultiByteToWideChar = (\<lambda>cp flags src srcLen dstSize.
          if dstSize = 0 then \<lparr>ret = 3, written = [], err = ERROR_SUCCESS\<rparr>
          else failed ERROR_INSUFFICIENT_BUFFER)\<rparr>"

text \<open>A world to start from: no error recorded, no call made.\<close>

definition world0 :: world where
  "world0 = \<lparr>last_error = ERROR_SUCCESS, platform_calls = 0, fresh = (\<lambda>i. 0xCDCD)\<rparr>"

section \<open>The converters on any platform\<close>

lemma length_store [simp]: "length (store buf us) = length buf"
  by (simp add: store_def)

lemma length_space_filled [simp]: "length (space_filled n) = n"
  by (simp add: space_filled_def)

lemma length_GetBuffer [simp]: "length (GetBuffer n w) = n"
  by (simp add: GetBuffer_def)

lemma store_exact: "length buf = length us \<Longrightarrow> store buf us = us"
  by (simp add: store_def)

lemma SafeSizeToInt_small: "int n \<le> INT_MAX \<Longrightarrow> SafeSizeToInt n = Inr (int n)"
  by (simp add: SafeSizeToInt_def Let_def INT_MAX_def)

text \<open>
  What each converter returns on a non-empty input, by the answers of its two calls.
\<close>

lemma ToUtf8_nonempty:
  assumes "utf16 \<noteq> []"
  shows "fst (ToUtf8 P utf16 w) =
    (let n = sizing_utf8 P utf16;
         r1 = WideCharToMultiByte P CP_UTF8 WC_ERR_INVALID_CHARS utf16 (GetLength utf16) 0;
         r2 = WideCharToMultiByte P CP_UTF8 WC_ERR_INVALID_CHARS utf16 (GetLength utf16) (int n)
     in if n = 0
        then Inl (UnicodeConversionException (err r1) FromUtf16ToUtf8
               ''Can't get result UTF-8 string length (WideCharToMultiByte failed).'')
        else if ret r2 = 0
        then Inl (UnicodeConversionException (err r2) FromUtf16ToUtf8
               ''Can't convert from UTF-16 to UTF-8 string (WideCharToMultiByte failed).'')
        else Inr (store (space_filled n) (written r2)))"
  using assms
  by (simp add: ToUtf8_def Let_def call_WideCharToMultiByte_def sizing_utf8_def
      GetLastError_def after_call_def)

lemma ToUtf16_nonempty:
  assumes "utf8 \<noteq> []" and "int (length utf8) \<le> INT_MAX"
  shows "fst (ToUtf16 P utf8 w) =
    (let n = sizing_utf16 P utf8;
         r1 = MultiByteToWideChar P CP_UTF8 MB_ERR_INVALID_CHARS utf8 (int (length utf8)) 0;
         r2 = MultiByteToWideChar P CP_UTF8 MB_ERR_INVALID_CHARS utf8 (int (length utf8)) (int n)
     in if n = 0
        then Inl (UnicodeConversionException (err r1) FromUtf8ToUtf16
               ''Can't get result UTF-16 string length (MultiByteToWideChar failed).'')
        else if ret r2 = 0
        then Inl (UnicodeConversionException (err r2) FromUtf8ToUtf16
               ''Can't convert from UTF-8 to UTF-16 string (MultiByteToWideChar failed).'')
        else Inr (store (GetBuffer n (after_call r1 w)) (written r2)))"
  using assms
  by (simp add: ToUtf16_def Let_def call_MultiByteToWideChar_def sizing_utf16_def
      GetLastError_def after_call_def SafeSizeToInt_small ReleaseBuffer_def)

lemma ToUtf16_too_long:
  assumes "int (length utf8) > INT_MAX"
  shows "fst (ToUtf16 P utf8 w) = Inl (overflow_error ''size_t value is too big to fit into an int.'')"
proof -
  from assms have "utf8 \<noteq> []" by (auto simp: INT_MAX_def)
  moreover from assms have "length utf8 > nat INT_MAX" by (simp add: INT_MAX_def)
  ultimately show ?thesis by (simp add: ToUtf16_def SafeSizeToInt_def Let_def)
qed

text \<open>
  What a returned sequence is, and when a converter raises: a sequence comes back only
  when both passes returned a nonzero count, and it is the fresh buffer of the sizing
  pass's length with the units of the second pass stored into it.
\<close>

lemma GetBuffer_after_call [simp]: "GetBuffer n (after_call r w) = GetBuffer n w"
  by (simp add: GetBuffer_def after_call_def)

lemma ToUtf8_returns:
  assumes "fst (ToUtf8 P utf16 w) = Inr out"
  shows "if utf16 = [] then out = []
         else sizing_utf8 P utf16 \<noteq> 0
            \<and> converting_utf8 P utf16 (sizing_utf8 P utf16) \<noteq> 0
            \<and> length out = sizing_utf8 P utf16
            \<and> out = store (space_filled (sizing_utf8 P utf16))
                       (stored_utf8 P utf16 (sizing_utf8 P utf16))"
proof (cases "utf16 = []")
  case True
  with assms show ?thesis by (simp add: ToUtf8_def)
next
  case False
  with assms show ?thesis
    by (auto simp: ToUtf8_nonempty Let_def converting_utf8_def stored_utf8_def
        split: if_splits)
qed

lemma ToUtf16_returns:
  assumes "fst (ToUtf16 P utf8 w) = Inr out"
  shows "if utf8 = [] then out = []
         else int (length utf8) \<le> INT_MAX
            \<and> sizing_utf16 P utf8 \<noteq> 0
            \<and> converting_utf16 P utf8 (sizing_utf16 P utf8) \<noteq> 0
            \<and> length out = sizing_utf16 P utf8
            \<and> out = store (GetBuffer (sizing_utf16 P utf8) w)
                       (stored_utf16 P utf8 (sizing_utf16 P utf8))"
proof (cases "utf8 = []")
  case True
  with assms show ?thesis by (simp add: ToUtf16_def)
next
  case False
  note ne = this
  show ?thesis
  proof (cases "int (length utf8) \<le> INT_MAX")
    case True
    with assms ne show ?thesis
      by (auto simp: ToUtf16_nonempty Let_def converting_utf16_def stored_utf16_def
          split: if_splits)
  next
    case False
    then have "int (length utf8) > INT_MAX" by simp
    from ToUtf16_too_long [OF this, of P w] assms show ?thesis by simp
  qed
qed

lemma ToUtf8_raises:
  assumes "utf16 \<noteq> []"
    and "sizing_utf8 P utf16 = 0 \<or> converting_utf8 P utf16 (sizing_utf8 P utf16) = 0"
  shows "\<exists>code message.
           fst (ToUtf8 P utf16 w) = Inl (UnicodeConversionException code FromUtf16ToUtf8 message)"
  using assms by (auto simp: ToUtf8_nonempty Let_def converting_utf8_def)

lemma ToUtf16_raises:
  assumes "utf8 \<noteq> []" and "int (length utf8) \<le> INT_MAX"
    and "sizing_utf16 P utf8 = 0 \<or> converting_utf16 P utf8 (sizing_utf16 P utf8) = 0"
  shows "\<exists>code message.
           fst (ToUtf16 P utf8 w) = Inl (UnicodeConversionException code FromUtf8ToUtf16 message)"
  using assms by (auto simp: ToUtf16_nonempty Let_def converting_utf16_def)

text \<open>
  The call counter is live: a converter that gets past its checks on a non-empty input
  has called the platform.
\<close>

lemma ToUtf8_calls_platform:
  "utf16 \<noteq> [] \<Longrightarrow> platform_calls w < platform_calls (snd (ToUtf8 P utf16 w))"
  by (simp add: ToUtf8_def Let_def call_WideCharToMultiByte_def after_call_def)

lemma ToUtf16_calls_platform:
  "utf8 \<noteq> [] \<Longrightarrow> int (length utf8) \<le> INT_MAX \<Longrightarrow>
   platform_calls w < platform_calls (snd (ToUtf16 P utf8 w))"
  by (simp add: ToUtf16_def Let_def SafeSizeToInt_small call_MultiByteToWideChar_def
      after_call_def)

text \<open>
  Whatever the platform, a UTF-8 text of more than \<open>INT_MAX\<close> bytes that \<open>ToUtf8\<close>
  returned cannot be taken back by \<open>ToUtf16\<close>.
\<close>

lemma roundtrip_needs_int_range:
  assumes "fst (ToUtf8 P utf16 w) = Inr utf8" and "int (length utf8) > INT_MAX"
  shows "fst (ToUtf16 P' utf8 w') \<noteq> Inr utf16"
  using ToUtf16_too_long [OF assms(2), of P' w'] by simp

section \<open>Round trips of the transformation formats\<close>

lemma horner64:
  fixes w z :: nat
  assumes "z < 64"
  shows "(w * 64 + z) div 64 = w" and "(w * 64 + z) mod 64 = z"
  using assms by simp_all

lemma div64_bounds:
  fixes c :: nat
  shows "m \<le> c div 64 \<longleftrightarrow> m * 64 \<le> c" and "c div 64 < n \<longleftrightarrow> c < n * 64"
  by (simp_all add: less_eq_div_iff_mult_less_eq div_less_iff_less_mult)

text \<open>What the decoder reads is a scalar value, and encoding it gives back the bytes read.\<close>

lemma dec1_enc1:
  assumes "utf8_dec1 bs = Some (c, r)"
  shows "utf8_enc1 c @ r = bs \<and> is_scalar c"
proof (cases bs)
  case Nil
  with assms show ?thesis by (simp add: utf8_dec1.simps)
next
  case (Cons b0 t)
  consider "b0 < 0x80" | "0xC2 \<le> b0 \<and> b0 < 0xE0" | "0xE0 \<le> b0 \<and> b0 < 0xF0"
    | "0xF0 \<le> b0 \<and> b0 < 0xF5" | "(0x80 \<le> b0 \<and> b0 < 0xC2) \<or> 0xF5 \<le> b0"
    by linarith
  then show ?thesis
  proof cases
    case 1
    with assms Cons show ?thesis
      by (auto simp: utf8_dec1.simps utf8_enc1_def is_scalar_def is_high_def is_low_def)
  next
    case 2
    with assms Cons obtain b1 where t: "t = b1 # r" and c1: "is_cont b1"
      and c: "c = (b0 - 0xC0) * 64 + (b1 - 0x80)"
      by (auto simp: utf8_dec1.simps split: list.splits if_splits)
    define x where "x = b0 - 0xC0"
    define y where "y = b1 - 0x80"
    have b0: "b0 = 0xC0 + x" and b1: "b1 = 0x80 + y" and x: "2 \<le> x" "x < 32" and y: "y < 64"
      using 2 c1 by (auto simp: x_def y_def is_cont_def)
    have cxy: "c = x * 64 + y" using c by (simp add: x_def y_def)
    have "c div 64 = x" "c mod 64 = y" using y by (simp_all add: cxy)
    moreover have "128 \<le> c" "c < 2048" using x y by (simp_all add: cxy)
    ultimately show ?thesis using Cons t b0 b1
      by (simp add: utf8_enc1_def is_scalar_def is_high_def is_low_def)
  next
    case 3
    with assms Cons obtain b1 b2 where t: "t = b1 # b2 # r" and c1: "is_cont b1" "is_cont b2"
      and lo: "b0 = 0xE0 \<longrightarrow> 0xA0 \<le> b1" and hi: "b0 = 0xED \<longrightarrow> b1 < 0xA0"
      and c: "c = ((b0 - 0xE0) * 64 + (b1 - 0x80)) * 64 + (b2 - 0x80)"
      by (auto simp: utf8_dec1.simps split: list.splits if_splits)
    define x where "x = b0 - 0xE0"
    define y where "y = b1 - 0x80"
    define z where "z = b2 - 0x80"
    have b: "b0 = 0xE0 + x" "b1 = 0x80 + y" "b2 = 0x80 + z"
      and x: "x < 16" and y: "y < 64" and z: "z < 64"
      using 3 c1 by (auto simp: x_def y_def z_def is_cont_def)
    have xy: "x = 0 \<longrightarrow> 32 \<le> y" "x = 13 \<longrightarrow> y < 32"
      using lo hi b by auto
    have cxy: "c = (x * 64 + y) * 64 + z" using c by (simp add: x_def y_def z_def)
    have d1: "c div 64 = x * 64 + y" and d0: "c mod 64 = z"
      unfolding cxy using horner64 [OF z] by blast+
    have d2: "c div 64 mod 64 = y" unfolding d1 using horner64 [OF y] by blast
    have "c div 4096 = c div 64 div 64" by (simp add: div_mult2_eq)
    then have d3: "c div 4096 = x" unfolding d1 using horner64 [OF y] by simp
    have lin: "c = x * 4096 + y * 64 + z" by (simp add: cxy)
    have rng: "2048 \<le> c" "c < 65536"
      using x y z xy lin by linarith+
    consider "x < 13" | "x = 13" | "13 < x" by linarith
    then have sur: "c < 0xD800 \<or> 0xE000 \<le> c"
      using x y z xy lin by cases linarith+
    have sc: "is_scalar c"
      using rng sur by (auto simp: is_scalar_def is_high_def is_low_def)
    show ?thesis using Cons t b d0 d2 d3 rng sc
      by (simp add: utf8_enc1_def)
  next
    case 4
    with assms Cons obtain b1 b2 b3 where t: "t = b1 # b2 # b3 # r"
      and c1: "is_cont b1" "is_cont b2" "is_cont b3"
      and lo: "b0 = 0xF0 \<longrightarrow> 0x90 \<le> b1" and hi: "b0 = 0xF4 \<longrightarrow> b1 < 0x90"
      and c: "c = (((b0 - 0xF0) * 64 + (b1 - 0x80)) * 64 + (b2 - 0x80)) * 64 + (b3 - 0x80)"
      by (auto simp: utf8_dec1.simps split: list.splits if_splits)
    define x where "x = b0 - 0xF0"
    define y where "y = b1 - 0x80"
    define z where "z = b2 - 0x80"
    define u where "u = b3 - 0x80"
    have b: "b0 = 0xF0 + x" "b1 = 0x80 + y" "b2 = 0x80 + z" "b3 = 0x80 + u"
      and x: "x < 5" and y: "y < 64" and z: "z < 64" and u: "u < 64"
      using 4 c1 by (auto simp: x_def y_def z_def u_def is_cont_def)
    have xy: "x = 0 \<longrightarrow> 16 \<le> y" "x = 4 \<longrightarrow> y < 16"
      using lo hi b by auto
    have cxy: "c = ((x * 64 + y) * 64 + z) * 64 + u"
      using c by (simp add: x_def y_def z_def u_def)
    have d1: "c div 64 = (x * 64 + y) * 64 + z" and d0: "c mod 64 = u"
      unfolding cxy using horner64 [OF u] by blast+
    have d2: "c div 64 mod 64 = z" unfolding d1 using horner64 [OF z] by blast
    have "c div 4096 = c div 64 div 64" by (simp add: div_mult2_eq)
    then have d3: "c div 4096 = x * 64 + y" unfolding d1 using horner64 [OF z] by simp
    have d4: "c div 4096 mod 64 = y" unfolding d3 using horner64 [OF y] by blast
    have "c div 262144 = c div 4096 div 64" by (simp add: div_mult2_eq)
    then have d5: "c div 262144 = x" unfolding d3 using horner64 [OF y] by simp
    have lin: "c = x * 262144 + y * 4096 + z * 64 + u" by (simp add: cxy)
    have rng: "65536 \<le> c" "c < 0x110000"
      using x y z u xy lin by linarith+
    have sc: "is_scalar c"
      using rng by (auto simp: is_scalar_def is_high_def is_low_def)
    show ?thesis using Cons t b d0 d2 d4 d5 rng sc
      by (simp add: utf8_enc1_def)
  next
    case 5
    with assms Cons show ?thesis by (auto simp: utf8_dec1.simps split: if_splits)
  qed
qed

lemma utf8_dec_enc: "utf8_dec bs = Some cs \<Longrightarrow> utf8_enc cs = bs \<and> list_all is_scalar cs"
proof (induction bs arbitrary: cs rule: utf8_dec.induct)
  case 1
  then show ?case by (simp add: utf8_enc_def)
next
  case (2 b bs)
  from "2.prems" obtain c r cs' where d: "utf8_dec1 (b # bs) = Some (c, r)"
    and r: "utf8_dec r = Some cs'" and cs: "cs = c # cs'"
    by (auto split: option.splits)
  from "2.IH" [OF d refl r] have ih: "utf8_enc cs' = r" "list_all is_scalar cs'" by simp_all
  from dec1_enc1 [OF d] have "utf8_enc1 c @ r = b # bs" "is_scalar c" by simp_all
  with ih cs show ?case by (simp add: utf8_enc_def)
qed

text \<open>The bytes of a scalar value are read back as that scalar value.\<close>

lemma enc1_dec1:
  assumes "is_scalar c"
  shows "utf8_dec1 (utf8_enc1 c @ r) = Some (c, r)"
proof -
  consider "c < 0x80" | "0x80 \<le> c \<and> c < 0x800" | "0x800 \<le> c \<and> c < 0x10000"
    | "0x10000 \<le> c" by linarith
  then show ?thesis
  proof cases
    case 1
    then show ?thesis by (simp add: utf8_enc1_def utf8_dec1.simps)
  next
    case 2
    define x where "x = c div 64"
    define y where "y = c mod 64"
    have x: "2 \<le> x" "x < 32" using 2 by (simp_all add: x_def div64_bounds)
    have y: "y < 64" by (simp add: y_def)
    have c: "x * 64 + y = c" by (simp add: x_def y_def)
    have e: "utf8_enc1 c = [0xC0 + x, 0x80 + y]"
      using 2 by (simp add: utf8_enc1_def x_def y_def)
    show ?thesis unfolding e using x y c by (simp add: utf8_dec1.simps is_cont_def)
  next
    case 3
    define x where "x = c div 4096"
    define y where "y = c div 64 mod 64"
    define z where "z = c mod 64"
    have x4096: "x = c div 64 div 64" by (simp add: x_def div_mult2_eq)
    have x: "x < 16" using 3 by (simp add: x4096 div64_bounds)
    have y: "y < 64" and z: "z < 64" by (simp_all add: y_def z_def)
    have "(x * 64 + y) * 64 + z = c div 64 * 64 + c mod 64"
      unfolding x4096 y_def z_def by simp
    then have c: "(x * 64 + y) * 64 + z = c" by simp
    then have lin: "c = x * 4096 + y * 64 + z" by simp
    have lo: "x = 0 \<longrightarrow> 32 \<le> y" using 3 y z lin by linarith
    have hi: "x = 13 \<longrightarrow> y < 32"
      using assms y z lin by (auto simp: is_scalar_def is_high_def is_low_def)
    have e: "utf8_enc1 c = [0xE0 + x, 0x80 + y, 0x80 + z]"
      using 3 by (simp add: utf8_enc1_def x_def y_def z_def)
    show ?thesis unfolding e using x y z c lo hi by (simp add: utf8_dec1.simps is_cont_def)
  next
    case 4
    define x where "x = c div 262144"
    define y where "y = c div 4096 mod 64"
    define z where "z = c div 64 mod 64"
    define u where "u = c mod 64"
    have c4096: "c div 4096 = c div 64 div 64" by (simp add: div_mult2_eq)
    have x262144: "x = c div 64 div 64 div 64" by (simp add: x_def div_mult2_eq)
    have c': "c < 0x110000" using assms by (simp add: is_scalar_def)
    have x: "x < 5" using c' by (simp add: x262144 div64_bounds)
    have y: "y < 64" and z: "z < 64" and u: "u < 64" by (simp_all add: y_def z_def u_def)
    have "((x * 64 + y) * 64 + z) * 64 + u = c div 64 * 64 + c mod 64"
      unfolding x262144 y_def z_def u_def c4096 by simp
    then have c: "((x * 64 + y) * 64 + z) * 64 + u = c" by simp
    then have lin: "c = x * 262144 + y * 4096 + z * 64 + u" by simp
    have lo: "x = 0 \<longrightarrow> 16 \<le> y" using 4 y z u lin by linarith
    have hi: "x = 4 \<longrightarrow> y < 16" using c' y z u lin by linarith
    have e: "utf8_enc1 c = [0xF0 + x, 0x80 + y, 0x80 + z, 0x80 + u]"
      using 4 by (simp add: utf8_enc1_def x_def y_def z_def u_def)
    show ?thesis unfolding e using x y z u c lo hi by (simp add: utf8_dec1.simps is_cont_def)
  qed
qed

lemma utf8_enc1_not_Nil: "utf8_enc1 c \<noteq> []"
  by (simp add: utf8_enc1_def)

lemma utf8_dec_step:
  assumes "is_scalar c"
  shows "utf8_dec (utf8_enc1 c @ r) =
           (case utf8_dec r of None \<Rightarrow> None | Some cs \<Rightarrow> Some (c # cs))"
proof -
  obtain b t where bt: "utf8_enc1 c @ r = b # t"
    using utf8_enc1_not_Nil [of c] by (cases "utf8_enc1 c") auto
  have "utf8_dec1 (b # t) = Some (c, r)"
    using enc1_dec1 [OF assms, of r] bt by simp
  then show ?thesis unfolding bt by simp
qed

lemma utf8_enc_dec: "list_all is_scalar cs \<Longrightarrow> utf8_dec (utf8_enc cs) = Some cs"
proof (induction cs)
  case Nil
  then show ?case by (simp add: utf8_enc_def)
next
  case (Cons c cs)
  then have "utf8_dec (utf8_enc1 c @ utf8_enc cs) = Some (c # cs)"
    by (simp add: utf8_dec_step)
  then show ?case by (simp add: utf8_enc_def)
qed

lemma utf16_dec_Cons_plain:
  "\<not> is_high u \<Longrightarrow> \<not> is_low u \<Longrightarrow>
   utf16_dec (u # r) = (case utf16_dec r of None \<Rightarrow> None | Some cs \<Rightarrow> Some (u # cs))"
  by (cases r) simp_all

lemma utf16_dec_step:
  assumes "is_scalar c"
  shows "utf16_dec (utf16_enc1 c @ r) =
           (case utf16_dec r of None \<Rightarrow> None | Some cs \<Rightarrow> Some (c # cs))"
proof (cases "c < 0x10000")
  case True
  with assms show ?thesis
    by (simp add: utf16_enc1_def utf16_dec_Cons_plain is_scalar_def)
next
  case False
  define d where "d = c - 0x10000"
  define x where "x = d div 1024"
  define y where "y = d mod 1024"
  have d: "d < 0x100000" and c: "c = 0x10000 + d"
    using assms False by (auto simp: d_def is_scalar_def)
  have x: "x < 1024" using d by (simp add: x_def div_less_iff_less_mult)
  have y: "y < 1024" by (simp add: y_def)
  have xy: "x * 1024 + y = d" by (simp add: x_def y_def)
  have e: "utf16_enc1 c = [0xD800 + x, 0xDC00 + y]"
    using False by (simp add: utf16_enc1_def x_def y_def d_def)
  show ?thesis unfolding e using x y xy c
    by (simp add: is_high_def is_low_def split: option.splits)
qed

lemma utf16_enc_dec: "list_all is_scalar cs \<Longrightarrow> utf16_dec (utf16_enc cs) = Some cs"
proof (induction cs)
  case Nil
  then show ?case by (simp add: utf16_enc_def)
next
  case (Cons c cs)
  then have "utf16_dec (utf16_enc1 c @ utf16_enc cs) = Some (c # cs)"
    by (simp add: utf16_dec_step)
  then show ?case by (simp add: utf16_enc_def)
qed

lemma utf16_dec_enc:
  "utf16_dec us = Some cs \<Longrightarrow> list_all (\<lambda>u. u < 0x10000) us \<Longrightarrow>
   utf16_enc cs = us \<and> list_all is_scalar cs"
proof (induction us arbitrary: cs rule: utf16_dec.induct)
  case 1
  then show ?case by (simp add: utf16_enc_def)
next
  case (2 u)
  then show ?case
    by (auto simp: utf16_enc_def utf16_enc1_def is_scalar_def split: if_splits)
next
  case (3 u v r)
  show ?case
  proof (cases "is_high u")
    case True
    with "3.prems" obtain cs' where v: "is_low v" and r: "utf16_dec r = Some cs'"
      and cs: "cs = (0x10000 + (u - 0xD800) * 1024 + (v - 0xDC00)) # cs'"
      by (auto split: if_splits option.splits)
    from "3.IH"(1) [OF True v r] "3.prems"(2)
    have ih: "utf16_enc cs' = r" "list_all is_scalar cs'" by simp_all
    define x where "x = u - 0xD800"
    define y where "y = v - 0xDC00"
    have u: "u = 0xD800 + x" and vv: "v = 0xDC00 + y" and x: "x < 1024" and y: "y < 1024"
      using True v by (auto simp: x_def y_def is_high_def is_low_def)
    define c where "c = 0x10000 + x * 1024 + y"
    have c1: "\<not> c < 0x10000" "c - 0x10000 = x * 1024 + y" by (simp_all add: c_def)
    have "(x * 1024 + y) div 1024 = x" "(x * 1024 + y) mod 1024 = y" using y by simp_all
    then have e: "utf16_enc1 c = [u, v]" using c1 by (simp add: utf16_enc1_def u vv)
    have "c < 0x110000" "0xE000 \<le> c" using x y by (simp_all add: c_def)
    then have s: "is_scalar c" by (simp add: is_scalar_def is_high_def is_low_def)
    have "cs = c # cs'" by (simp add: cs c_def x_def y_def)
    then show ?thesis using e s ih by (simp add: utf16_enc_def)
  next
    case False
    with "3.prems" obtain cs' where nl: "\<not> is_low u" and r: "utf16_dec (v # r) = Some cs'"
      and cs: "cs = u # cs'"
      by (auto split: if_splits option.splits)
    from "3.IH"(2) [OF False nl r] "3.prems"(2)
    have ih: "utf16_enc cs' = v # r" "list_all is_scalar cs'" by simp_all
    have u: "u < 0x10000" using "3.prems"(2) by simp
    then have "is_scalar u" using False nl by (simp add: is_scalar_def)
    then show ?thesis using u ih cs
      by (simp add: utf16_enc_def utf16_enc1_def)
  qed
qed

subsection \<open>Bytes, units and numbers\<close>

lemma map_of_nat_unat [simp]: "map (of_nat \<circ> unat) (ws :: 'a::len word list) = ws"
  by (induction ws) simp_all

lemma map_unat_of_nat:
  "list_all (\<lambda>n. n < 2 ^ LENGTH('a)) ns \<Longrightarrow>
   map unat (map of_nat ns :: 'a::len word list) = ns"
  by (induction ns) (simp_all add: unat_of_nat)

lemma unat_units_bounded: "list_all (\<lambda>n. n < 2 ^ LENGTH('a)) (map unat (ws :: 'a::len word list))"
  by (induction ws) simp_all

lemma utf8_enc1_bytes:
  assumes "is_scalar c"
  shows "list_all (\<lambda>n. n < 256) (utf8_enc1 c)"
proof -
  have c: "c < 0x110000" using assms by (simp add: is_scalar_def)
  have "c div 262144 = c div 64 div 64 div 64" by (simp add: div_mult2_eq)
  then have 4: "c div 262144 < 5" using c by (simp add: div64_bounds)
  have "c div 4096 = c div 64 div 64" by (simp add: div_mult2_eq)
  then have 3: "c < 0x10000 \<Longrightarrow> c div 4096 < 16" by (simp add: div64_bounds)
  have 2: "c < 0x800 \<Longrightarrow> c div 64 < 32" by (simp add: div64_bounds)
  define q1 where "q1 = c div 64"
  define q2 where "q2 = c div 4096"
  define q3 where "q3 = c div 262144"
  have m: "c mod 64 < 64" "q1 mod 64 < 64" "q2 mod 64 < 64" by simp_all
  define m0 where "m0 = c mod 64"
  define m1 where "m1 = q1 mod 64"
  define m2 where "m2 = q2 mod 64"
  show ?thesis using 2 3 4 m
    unfolding utf8_enc1_def q1_def [symmetric] q2_def [symmetric] q3_def [symmetric]
      m0_def [symmetric] m1_def [symmetric] m2_def [symmetric]
    by auto
qed

lemma utf8_enc_bytes: "list_all is_scalar cs \<Longrightarrow> list_all (\<lambda>n. n < 256) (utf8_enc cs)"
  by (induction cs) (simp_all add: utf8_enc_def utf8_enc1_bytes)

lemma utf16_enc1_units:
  assumes "is_scalar c"
  shows "list_all (\<lambda>n. n < 65536) (utf16_enc1 c)"
proof (cases "c < 0x10000")
  case True
  then show ?thesis by (simp add: utf16_enc1_def)
next
  case False
  define d where "d = c - 0x10000"
  have d: "d < 0x100000" using assms False by (auto simp: d_def is_scalar_def)
  define x where "x = d div 1024"
  define y where "y = d mod 1024"
  have x: "x < 1024" using d by (simp add: x_def div_less_iff_less_mult)
  have y: "y < 1024" by (simp add: y_def)
  have e: "utf16_enc1 c = [0xD800 + x, 0xDC00 + y]"
    using False by (simp add: utf16_enc1_def x_def y_def d_def)
  show ?thesis unfolding e using x y by simp
qed

lemma utf16_enc_units: "list_all is_scalar cs \<Longrightarrow> list_all (\<lambda>n. n < 65536) (utf16_enc cs)"
  by (induction cs) (simp_all add: utf16_enc_def utf16_enc1_units)

subsection \<open>The four round trips on bytes and units\<close>

lemma utf8_decode_encode:
  assumes "utf8_decode bs = Some cs"
  shows "utf8_encode cs = bs" and "list_all is_scalar cs"
  using utf8_dec_enc [of "map unat bs" cs] assms
  by (simp_all add: utf8_decode_def utf8_encode_def)

lemma utf8_encode_decode:
  assumes "list_all is_scalar cs"
  shows "utf8_decode (utf8_encode cs) = Some cs"
proof -
  have "map unat (map of_nat (utf8_enc cs) :: byte list) = utf8_enc cs"
    using utf8_enc_bytes [OF assms] by (intro map_unat_of_nat) simp
  then show ?thesis using utf8_enc_dec [OF assms]
    by (simp add: utf8_decode_def utf8_encode_def)
qed

lemma utf16_decode_encode:
  assumes "utf16_decode us = Some cs"
  shows "utf16_encode cs = us" and "list_all is_scalar cs"
proof -
  have "list_all (\<lambda>u. u < 0x10000) (map unat us)"
    using unat_units_bounded [of us] by simp
  with utf16_dec_enc [of "map unat us" cs] assms
  show "utf16_encode cs = us" and "list_all is_scalar cs"
    by (simp_all add: utf16_decode_def utf16_encode_def)
qed

lemma utf16_encode_decode:
  assumes "list_all is_scalar cs"
  shows "utf16_decode (utf16_encode cs) = Some cs"
proof -
  have "map unat (map of_nat (utf16_enc cs) :: wchar list) = utf16_enc cs"
    using utf16_enc_units [OF assms] by (intro map_unat_of_nat) simp
  then show ?thesis using utf16_enc_dec [OF assms]
    by (simp add: utf16_decode_def utf16_encode_def)
qed

lemma utf8_encode_Nil_iff [simp]: "utf8_encode cs = [] \<longleftrightarrow> cs = []"
  by (cases cs) (simp_all add: utf8_encode_def utf8_enc_def utf8_enc1_not_Nil)

lemma utf16_encode_Nil_iff [simp]: "utf16_encode cs = [] \<longleftrightarrow> cs = []"
  by (cases cs) (simp_all add: utf16_encode_def utf16_enc_def utf16_enc1_def)

lemma utf8_decode_Nil: "utf8_decode bs = Some [] \<Longrightarrow> bs = []"
  using utf8_decode_encode(1) [of bs "[]"] by (simp add: utf8_encode_def utf8_enc_def)

lemma utf16_decode_Nil: "utf16_decode us = Some [] \<Longrightarrow> us = []"
  using utf16_decode_encode(1) [of us "[]"] by (simp add: utf16_encode_def utf16_enc_def)

text \<open>
  Validity as the standard has it: a sequence is well formed when it is the encoding of
  some sequence of scalar values.
\<close>

lemma utf8_valid_iff: "utf8_valid bs \<longleftrightarrow> (\<exists>cs. list_all is_scalar cs \<and> utf8_encode cs = bs)"
  unfolding utf8_valid_def
  using utf8_decode_encode utf8_encode_decode by (metis not_Some_eq)

lemma utf16_valid_iff: "utf16_valid us \<longleftrightarrow> (\<exists>cs. list_all is_scalar cs \<and> utf16_encode cs = us)"
  unfolding utf16_valid_def
  using utf16_decode_encode utf16_encode_decode by (metis not_Some_eq)

text \<open>
  An unpaired high surrogate, by position: a unit in \<open>D800..DBFF\<close> whose successor is
  missing or is not in \<open>DC00..DFFF\<close>.
\<close>

lemma unpaired_high_surrogate_iff:
  "unpaired_high_surrogate us \<longleftrightarrow>
     (\<exists>i < length us. is_high (unat (us ! i))
         \<and> (Suc i < length us \<longrightarrow> \<not> is_low (unat (us ! Suc i))))"
proof (induction us rule: unpaired_high_surrogate.induct)
  case 1
  then show ?case by simp
next
  case (2 u)
  then show ?case by simp
next
  case (3 u v r)
  have "(\<exists>i < length (u # v # r). is_high (unat ((u # v # r) ! i))
          \<and> (Suc i < length (u # v # r) \<longrightarrow> \<not> is_low (unat ((u # v # r) ! Suc i))))
        \<longleftrightarrow> (is_high (unat u) \<and> \<not> is_low (unat v))
           \<or> (\<exists>j < length (v # r). is_high (unat ((v # r) ! j))
                \<and> (Suc j < length (v # r) \<longrightarrow> \<not> is_low (unat ((v # r) ! Suc j))))"
    (is "?L \<longleftrightarrow> ?A \<or> ?R")
  proof
    assume ?L
    then obtain i where i: "i < length (u # v # r)" "is_high (unat ((u # v # r) ! i))"
      "Suc i < length (u # v # r) \<longrightarrow> \<not> is_low (unat ((u # v # r) ! Suc i))" by blast
    show "?A \<or> ?R"
    proof (cases i)
      case 0
      with i show ?thesis by simp
    next
      case (Suc j)
      with i have "j < length (v # r)" "is_high (unat ((v # r) ! j))"
        "Suc j < length (v # r) \<longrightarrow> \<not> is_low (unat ((v # r) ! Suc j))" by simp_all
      then show ?thesis by blast
    qed
  next
    assume "?A \<or> ?R"
    then show ?L
    proof
      assume ?A
      then show ?L by (intro exI [of _ 0]) simp
    next
      assume ?R
      then obtain j where "j < length (v # r)" "is_high (unat ((v # r) ! j))"
        "Suc j < length (v # r) \<longrightarrow> \<not> is_low (unat ((v # r) ! Suc j))" by blast
      then show ?L by (intro exI [of _ "Suc j"]) simp
    qed
  qed
  with 3 show ?case by simp
qed

lemma unpaired_skip:
  "\<not> is_high (unat v) \<Longrightarrow> unpaired_high_surrogate (v # r) = unpaired_high_surrogate r"
  by (cases r) simp_all

lemma low_not_high: "is_low n \<Longrightarrow> \<not> is_high n"
  by (simp add: is_low_def is_high_def)

lemma utf16_decode_no_unpaired:
  "utf16_decode us = Some cs \<Longrightarrow> \<not> unpaired_high_surrogate us"
proof (induction "length us" arbitrary: us cs rule: less_induct)
  case less
  show ?case
  proof (cases us rule: unpaired_high_surrogate.cases)
    case 1
    then show ?thesis by simp
  next
    case (2 u)
    with less.prems show ?thesis by (auto simp: utf16_decode_def split: if_splits)
  next
    case (3 u v r)
    show ?thesis
    proof (cases "is_high (unat u)")
      case True
      with less.prems 3 obtain cs' where v: "is_low (unat v)"
        and r: "utf16_decode r = Some cs'"
        by (auto simp: utf16_decode_def split: if_splits option.splits)
      have "\<not> unpaired_high_surrogate r" using less.hyps [OF _ r] 3 by simp
      then show ?thesis using 3 v low_not_high [OF v] by (simp add: unpaired_skip)
    next
      case False
      with less.prems 3 obtain cs' where r: "utf16_decode (v # r) = Some cs'"
        by (auto simp: utf16_decode_def split: if_splits option.splits)
      have "\<not> unpaired_high_surrogate (v # r)" using less.hyps [OF _ r] 3 by simp
      then show ?thesis using 3 False by simp
    qed
  qed
qed

lemma utf8_valid_ascii: "utf8_valid (replicate n 0x61)"
proof -
  have "utf8_dec (replicate n 0x61) = Some (replicate n 0x61)"
    by (induction n) (simp_all add: utf8_dec1.simps)
  then show ?thesis by (simp add: utf8_valid_def utf8_decode_def)
qed

lemma utf8_invalid_continuation: "0 < n \<Longrightarrow> \<not> utf8_valid (replicate n 0x80)"
  by (cases n) (simp_all add: utf8_valid_def utf8_decode_def utf8_dec1.simps)

section \<open>The converters on the reference platform\<close>

lemma win32_MultiByteToWideChar_strict:
  assumes "bs \<noteq> []" and "0 \<le> d"
  shows "MultiByteToWideChar win32 CP_UTF8 MB_ERR_INVALID_CHARS bs (int (length bs)) d =
           (case utf8_decode bs of
              None \<Rightarrow> failed ERROR_NO_UNICODE_TRANSLATION
            | Some cs \<Rightarrow> deliver (utf16_encode cs) d)"
  using assms
  by (simp add: win32_def win32_MultiByteToWideChar_def MB_ERR_INVALID_CHARS_def
      utf8_decode_def)

lemma win32_WideCharToMultiByte_strict:
  assumes "us \<noteq> []" and "0 \<le> d"
  shows "WideCharToMultiByte win32 CP_UTF8 WC_ERR_INVALID_CHARS us (GetLength us) d =
           (case utf16_decode us of
              None \<Rightarrow> failed ERROR_NO_UNICODE_TRANSLATION
            | Some cs \<Rightarrow> deliver (utf8_encode cs) d)"
  using assms
  by (simp add: win32_def win32_WideCharToMultiByte_def WC_ERR_INVALID_CHARS_def
      utf16_decode_def GetLength_def)

text \<open>
  In strict mode, which is how the converters call the platform, a converter returns the
  whole transcoded text or raises; there is nothing in between.
\<close>

lemma ToUtf16_win32:
  assumes ne: "utf8 \<noteq> []" and len: "int (length utf8) \<le> INT_MAX"
  shows "fst (ToUtf16 win32 utf8 w) =
           (case utf8_decode utf8 of
              None \<Rightarrow> Inl (UnicodeConversionException ERROR_NO_UNICODE_TRANSLATION
                        FromUtf8ToUtf16
                        ''Can't get result UTF-16 string length (MultiByteToWideChar failed).'')
            | Some cs \<Rightarrow> Inr (utf16_encode cs))"
proof (cases "utf8_decode utf8")
  case None
  then show ?thesis
    using ne len
    by (simp add: ToUtf16_nonempty sizing_utf16_def win32_MultiByteToWideChar_strict
        failed_def Let_def)
next
  case (Some cs)
  with ne have "cs \<noteq> []" using utf8_decode_Nil by blast
  then have pos: "utf16_encode cs \<noteq> []" by simp
  show ?thesis
    using ne len Some pos
    by (simp add: ToUtf16_nonempty sizing_utf16_def win32_MultiByteToWideChar_strict
        deliver_def failed_def Let_def store_exact)
qed

lemma ToUtf8_win32:
  assumes ne: "utf16 \<noteq> []"
  shows "fst (ToUtf8 win32 utf16 w) =
           (case utf16_decode utf16 of
              None \<Rightarrow> Inl (UnicodeConversionException ERROR_NO_UNICODE_TRANSLATION
                        FromUtf16ToUtf8
                        ''Can't get result UTF-8 string length (WideCharToMultiByte failed).'')
            | Some cs \<Rightarrow> Inr (utf8_encode cs))"
proof (cases "utf16_decode utf16")
  case None
  then show ?thesis
    using ne
    by (simp add: ToUtf8_nonempty sizing_utf8_def win32_WideCharToMultiByte_strict
        failed_def Let_def)
next
  case (Some cs)
  with ne have "cs \<noteq> []" using utf16_decode_Nil by blast
  then have pos: "utf8_encode cs \<noteq> []" by simp
  show ?thesis
    using ne Some pos
    by (simp add: ToUtf8_nonempty sizing_utf8_def win32_WideCharToMultiByte_strict
        deliver_def failed_def Let_def store_exact)
qed

lemma ToUtf8_win32_returns:
  assumes "fst (ToUtf8 win32 utf16 w) = Inr out"
  shows "\<exists>cs. utf16_decode utf16 = Some cs \<and> out = utf8_encode cs"
proof (cases "utf16 = []")
  case True
  with assms show ?thesis
    by (simp add: ToUtf8_def utf16_decode_def utf8_encode_def utf8_enc_def)
next
  case False
  with assms show ?thesis by (auto simp: ToUtf8_win32 split: option.splits)
qed

lemma ToUtf16_win32_returns:
  assumes "fst (ToUtf16 win32 utf8 w) = Inr out"
  shows "\<exists>cs. utf8_decode utf8 = Some cs \<and> out = utf16_encode cs"
proof (cases "utf8 = []")
  case True
  with assms show ?thesis
    by (simp add: ToUtf16_def utf8_decode_def utf16_encode_def utf16_enc_def)
next
  case False
  note ne = this
  show ?thesis
  proof (cases "int (length utf8) \<le> INT_MAX")
    case True
    with assms ne show ?thesis by (auto simp: ToUtf16_win32 split: option.splits)
  next
    case False
    then have "int (length utf8) > INT_MAX" by simp
    from ToUtf16_too_long [OF this, of win32 w] assms show ?thesis by simp
  qed
qed

text \<open>
  Without the strict flag the same call would succeed on a lone surrogate and announce
  the three bytes of U+FFFD.
\<close>

lemma lenient_call_substitutes:
  "ret (WideCharToMultiByte win32 CP_UTF8 0 [0xD800] 1 0) = 3"
  by (simp add: win32_def win32_WideCharToMultiByte_def is_high_def deliver_def
      utf8_encode_def utf8_enc_def utf8_enc1_def)

section \<open>The claims\<close>

lemma utf8_valid_euro: "utf8_valid [0xE2, 0x82, 0xAC]"
  by (simp add: utf8_valid_def utf8_decode_def utf8_dec1.simps is_cont_def)

lemma utf16_valid_clef: "utf16_valid [0xD834, 0xDD1E]"
  by (simp add: utf16_valid_def utf16_decode_def is_high_def is_low_def)

lemma utf8_size_clef: "utf8_size [0xD834, 0xDD1E] = 4"
  by (simp add: utf8_size_def utf16_decode_def is_high_def is_low_def utf8_encode_def
      utf8_enc_def utf8_enc1_def)

text \<open>
  C1 (amended). On the reference platform: for every valid UTF-8 sequence \<open>s\<close> of at most
  \<open>INT_MAX\<close> bytes, \<open>ToUtf16\<close> succeeds and \<open>ToUtf8\<close> of its result is exactly \<open>s\<close>;
  for every valid UTF-16 sequence \<open>u\<close> whose UTF-8 form has at most \<open>INT_MAX\<close> bytes,
  \<open>ToUtf8\<close> succeeds and \<open>ToUtf16\<close> of its result is exactly \<open>u\<close>.
\<close>

theorem roundtrip_within_int_range:
  "(utf8_valid s \<and> int (length s) \<le> INT_MAX \<longrightarrow>
      (\<exists>u. fst (ToUtf16 win32 s w) = Inr u \<and> fst (ToUtf8 win32 u w') = Inr s))
   \<and> (utf16_valid u \<and> int (utf8_size u) \<le> INT_MAX \<longrightarrow>
      (\<exists>s. fst (ToUtf8 win32 u w) = Inr s \<and> fst (ToUtf16 win32 s w') = Inr u))"
proof (intro conjI impI)
  assume "utf8_valid s \<and> int (length s) \<le> INT_MAX"
  then obtain cs where cs: "utf8_decode s = Some cs" and len: "int (length s) \<le> INT_MAX"
    by (auto simp: utf8_valid_def)
  show "\<exists>u. fst (ToUtf16 win32 s w) = Inr u \<and> fst (ToUtf8 win32 u w') = Inr s"
  proof (cases "s = []")
    case True
    then show ?thesis by (simp add: ToUtf16_def ToUtf8_def)
  next
    case False
    then have "cs \<noteq> []" using cs utf8_decode_Nil by blast
    then have ne: "utf16_encode cs \<noteq> []" by simp
    have 1: "fst (ToUtf16 win32 s w) = Inr (utf16_encode cs)"
      using False len cs by (simp add: ToUtf16_win32)
    have "utf16_decode (utf16_encode cs) = Some cs"
      using utf8_decode_encode(2) [OF cs] by (rule utf16_encode_decode)
    then have "fst (ToUtf8 win32 (utf16_encode cs) w') = Inr (utf8_encode cs)"
      using ne by (simp add: ToUtf8_win32)
    with 1 utf8_decode_encode(1) [OF cs] show ?thesis by simp
  qed
next
  assume "utf16_valid u \<and> int (utf8_size u) \<le> INT_MAX"
  then obtain cs where cs: "utf16_decode u = Some cs"
    and len: "int (length (utf8_encode cs)) \<le> INT_MAX"
    by (auto simp: utf16_valid_def utf8_size_def)
  show "\<exists>s. fst (ToUtf8 win32 u w) = Inr s \<and> fst (ToUtf16 win32 s w') = Inr u"
  proof (cases "u = []")
    case True
    then show ?thesis by (simp add: ToUtf16_def ToUtf8_def)
  next
    case False
    then have "cs \<noteq> []" using cs utf16_decode_Nil by blast
    then have ne: "utf8_encode cs \<noteq> []" by simp
    have 1: "fst (ToUtf8 win32 u w) = Inr (utf8_encode cs)"
      using False cs by (simp add: ToUtf8_win32)
    have "utf8_decode (utf8_encode cs) = Some cs"
      using utf16_decode_encode(2) [OF cs] by (rule utf8_encode_decode)
    then have "fst (ToUtf16 win32 (utf8_encode cs) w') = Inr (utf16_encode cs)"
      using ne len by (simp add: ToUtf16_win32)
    with 1 utf16_decode_encode(1) [OF cs] show ?thesis by simp
  qed
qed

theorem roundtrip_within_int_range_witness:
  "utf8_valid [0xE2, 0x82, 0xAC] \<and> int (length [0xE2, 0x82, 0xAC :: byte]) \<le> INT_MAX
   \<and> utf16_valid [0xD834, 0xDD1E] \<and> int (utf8_size [0xD834, 0xDD1E]) \<le> INT_MAX
   \<and> (\<exists>u. fst (ToUtf16 win32 [0xE2, 0x82, 0xAC] world0) = Inr u
          \<and> fst (ToUtf8 win32 u world0) = Inr [0xE2, 0x82, 0xAC])
   \<and> (\<exists>s. fst (ToUtf8 win32 [0xD834, 0xDD1E] world0) = Inr s
          \<and> fst (ToUtf16 win32 s world0) = Inr [0xD834, 0xDD1E])"
  using roundtrip_within_int_range [of "[0xE2, 0x82, 0xAC]" world0 world0 "[0xD834, 0xDD1E]"]
  by (simp add: utf8_valid_euro utf16_valid_clef utf8_size_clef INT_MAX_def)

text \<open>
  The claim without the bound fails: 2147483648 bytes \<open>0x61\<close> are valid UTF-8, and
  \<open>ToUtf16\<close> raises \<open>overflow_error\<close> on them, so there is nothing to convert back.
\<close>

theorem roundtrip_long_utf8_counterexample:
  "utf8_valid (replicate 2147483648 0x61)
   \<and> fst (ToUtf16 win32 (replicate 2147483648 0x61) world0)
       = Inl (overflow_error ''size_t value is too big to fit into an int.'')"
  using ToUtf16_too_long [of "replicate 2147483648 0x61" win32 world0]
  by (simp add: utf8_valid_ascii INT_MAX_def)

text \<open>
  C2. On the reference platform, \<open>ToUtf8\<close> of a UTF-16 input that contains an unpaired
  high surrogate raises a \<open>UnicodeConversionException\<close> whose conversion type is
  \<open>FromUtf16ToUtf8\<close>: no buffer is returned and nothing is substituted.
\<close>

theorem unpaired_high_surrogate_rejected:
  assumes "unpaired_high_surrogate utf16"
  shows "\<exists>code message.
           fst (ToUtf8 win32 utf16 w) = Inl (UnicodeConversionException code FromUtf16ToUtf8 message)"
proof -
  from assms have ne: "utf16 \<noteq> []" by auto
  from assms have "utf16_decode utf16 = None"
    using utf16_decode_no_unpaired by (cases "utf16_decode utf16") auto
  then show ?thesis using ne by (simp add: ToUtf8_win32)
qed

theorem unpaired_high_surrogate_rejected_witness:
  "unpaired_high_surrogate [0x41, 0xD800, 0x42]
   \<and> (\<exists>code message. fst (ToUtf8 win32 [0x41, 0xD800, 0x42] world0)
          = Inl (UnicodeConversionException code FromUtf16ToUtf8 message))"
  using unpaired_high_surrogate_rejected [of "[0x41, 0xD800, 0x42]" world0]
  by (simp add: is_high_def is_low_def)

text \<open>
  C3 (amended). On the reference platform, \<open>ToUtf16\<close> of a byte sequence of at most
  \<open>INT_MAX\<close> bytes that is not valid UTF-8 raises a \<open>UnicodeConversionException\<close>
  whose conversion type is \<open>FromUtf8ToUtf16\<close>.
\<close>

theorem invalid_utf8_rejected:
  assumes "\<not> utf8_valid utf8" and "int (length utf8) \<le> INT_MAX"
  shows "\<exists>code message.
           fst (ToUtf16 win32 utf8 w) = Inl (UnicodeConversionException code FromUtf8ToUtf16 message)"
proof -
  from assms(1) have ne: "utf8 \<noteq> []"
    by (auto simp: utf8_valid_def utf8_decode_def)
  from assms(1) have "utf8_decode utf8 = None" by (simp add: utf8_valid_def)
  then show ?thesis using ne assms(2) by (simp add: ToUtf16_win32)
qed

theorem invalid_utf8_rejected_witness:
  "\<not> utf8_valid [0x80] \<and> int (length [0x80 :: byte]) \<le> INT_MAX
   \<and> (\<exists>code message. fst (ToUtf16 win32 [0x80] world0)
          = Inl (UnicodeConversionException code FromUtf8ToUtf16 message))"
  using invalid_utf8_rejected [of "[0x80]" world0]
  by (simp add: utf8_valid_def utf8_decode_def utf8_dec1.simps INT_MAX_def)

text \<open>
  The claim without the bound fails: 2147483648 bytes \<open>0x80\<close> are not valid UTF-8, and
  \<open>ToUtf16\<close> raises \<open>overflow_error\<close> on them, which carries no conversion type.
\<close>

theorem invalid_long_utf8_counterexample:
  "\<not> utf8_valid (replicate 2147483648 0x80)
   \<and> fst (ToUtf16 win32 (replicate 2147483648 0x80) world0)
       = Inl (overflow_error ''size_t value is too big to fit into an int.'')
   \<and> GetConversionType (overflow_error ''size_t value is too big to fit into an int.'')
       \<noteq> Some FromUtf8ToUtf16"
  using ToUtf16_too_long [of "replicate 2147483648 0x80" win32 world0]
  by (simp add: utf8_invalid_continuation INT_MAX_def)

text \<open>
  C4. A UTF-8 input longer than the largest signed 32-bit integer makes \<open>ToUtf16\<close> fail
  with \<open>overflow_error\<close>, which is not a \<open>UnicodeConversionException\<close>, and the world
  is returned as it was: no platform call has been made.
\<close>

theorem ToUtf16_length_overflow:
  assumes "int (length utf8) > 2147483647"
  shows "\<exists>message. ToUtf16 P utf8 w = (Inl (overflow_error message), w)
           \<and> (\<forall>code dir text. overflow_error message \<noteq> UnicodeConversionException code dir text)
           \<and> platform_calls (snd (ToUtf16 P utf8 w)) = platform_calls w"
proof -
  from assms have ne: "utf8 \<noteq> []" by auto
  from assms have big: "length utf8 > nat INT_MAX" by (simp add: INT_MAX_def)
  show ?thesis using ne big by (simp add: ToUtf16_def SafeSizeToInt_def Let_def)
qed

theorem ToUtf16_length_overflow_witness:
  "int (length (replicate 2147483648 (0x20 :: byte))) > 2147483647
   \<and> (\<exists>message. ToUtf16 win32 (replicate 2147483648 0x20) world0
                      = (Inl (overflow_error message), world0))"
  using ToUtf16_length_overflow [of "replicate 2147483648 0x20" win32 world0] by simp

text \<open>
  C5. A converter returns the whole conversion or raises. On any platform, a returned
  sequence has exactly the length the sizing pass returned (the first call, with a
  destination size of 0) and holds what the second pass stored into a buffer of that
  length; both passes returned a nonzero count; on empty input the output is empty. When
  either pass returns 0 the converter raises a \<open>UnicodeConversionException\<close> and hands
  out no buffer. On the reference platform a returned sequence is the encoding of every
  code point of the input, so nothing is cut off.
\<close>

theorem full_conversion_or_error:
  "(fst (ToUtf8 P utf16 w) = Inr out8 \<longrightarrow>
      (if utf16 = [] then out8 = []
       else sizing_utf8 P utf16 \<noteq> 0
          \<and> converting_utf8 P utf16 (sizing_utf8 P utf16) \<noteq> 0
          \<and> length out8 = sizing_utf8 P utf16
          \<and> out8 = store (space_filled (sizing_utf8 P utf16))
                      (stored_utf8 P utf16 (sizing_utf8 P utf16))))
   \<and> (fst (ToUtf16 P utf8 w) = Inr out16 \<longrightarrow>
      (if utf8 = [] then out16 = []
       else int (length utf8) \<le> INT_MAX
          \<and> sizing_utf16 P utf8 \<noteq> 0
          \<and> converting_utf16 P utf8 (sizing_utf16 P utf8) \<noteq> 0
          \<and> length out16 = sizing_utf16 P utf8
          \<and> out16 = store (GetBuffer (sizing_utf16 P utf8) w)
                       (stored_utf16 P utf8 (sizing_utf16 P utf8))))
   \<and> (utf16 \<noteq> []
        \<and> (sizing_utf8 P utf16 = 0 \<or> converting_utf8 P utf16 (sizing_utf8 P utf16) = 0) \<longrightarrow>
      (\<exists>code message. fst (ToUtf8 P utf16 w)
          = Inl (UnicodeConversionException code FromUtf16ToUtf8 message)))
   \<and> (utf8 \<noteq> [] \<and> int (length utf8) \<le> INT_MAX
        \<and> (sizing_utf16 P utf8 = 0 \<or> converting_utf16 P utf8 (sizing_utf16 P utf8) = 0) \<longrightarrow>
      (\<exists>code message. fst (ToUtf16 P utf8 w)
          = Inl (UnicodeConversionException code FromUtf8ToUtf16 message)))
   \<and> (fst (ToUtf8 win32 utf16 w) = Inr full8 \<longrightarrow>
      (\<exists>cs. utf16_decode utf16 = Some cs \<and> full8 = utf8_encode cs))
   \<and> (fst (ToUtf16 win32 utf8 w) = Inr full16 \<longrightarrow>
      (\<exists>cs. utf8_decode utf8 = Some cs \<and> full16 = utf16_encode cs))"
proof (intro conjI impI)
  assume "fst (ToUtf8 P utf16 w) = Inr out8"
  then show "if utf16 = [] then out8 = []
       else sizing_utf8 P utf16 \<noteq> 0
          \<and> converting_utf8 P utf16 (sizing_utf8 P utf16) \<noteq> 0
          \<and> length out8 = sizing_utf8 P utf16
          \<and> out8 = store (space_filled (sizing_utf8 P utf16))
                      (stored_utf8 P utf16 (sizing_utf8 P utf16))"
    by (rule ToUtf8_returns)
next
  assume "fst (ToUtf16 P utf8 w) = Inr out16"
  then show "if utf8 = [] then out16 = []
       else int (length utf8) \<le> INT_MAX
          \<and> sizing_utf16 P utf8 \<noteq> 0
          \<and> converting_utf16 P utf8 (sizing_utf16 P utf8) \<noteq> 0
          \<and> length out16 = sizing_utf16 P utf8
          \<and> out16 = store (GetBuffer (sizing_utf16 P utf8) w)
                       (stored_utf16 P utf8 (sizing_utf16 P utf8))"
    by (rule ToUtf16_returns)
next
  assume "utf16 \<noteq> []
        \<and> (sizing_utf8 P utf16 = 0 \<or> converting_utf8 P utf16 (sizing_utf8 P utf16) = 0)"
  then show "\<exists>code message. fst (ToUtf8 P utf16 w)
          = Inl (UnicodeConversionException code FromUtf16ToUtf8 message)"
    using ToUtf8_raises by blast
next
  assume "utf8 \<noteq> [] \<and> int (length utf8) \<le> INT_MAX
        \<and> (sizing_utf16 P utf8 = 0 \<or> converting_utf16 P utf8 (sizing_utf16 P utf8) = 0)"
  then show "\<exists>code message. fst (ToUtf16 P utf8 w)
          = Inl (UnicodeConversionException code FromUtf8ToUtf16 message)"
    using ToUtf16_raises by blast
next
  assume "fst (ToUtf8 win32 utf16 w) = Inr full8"
  then show "\<exists>cs. utf16_decode utf16 = Some cs \<and> full8 = utf8_encode cs"
    by (rule ToUtf8_win32_returns)
next
  assume "fst (ToUtf16 win32 utf8 w) = Inr full16"
  then show "\<exists>cs. utf8_decode utf8 = Some cs \<and> full16 = utf16_encode cs"
    by (rule ToUtf16_win32_returns)
qed

theorem full_conversion_or_error_witness:
  "fst (ToUtf8 win32 [0x48, 0x20AC] world0) = Inr [0x48, 0xE2, 0x82, 0xAC]
   \<and> sizing_utf8 win32 [0x48, 0x20AC] = 4
   \<and> stored_utf8 win32 [0x48, 0x20AC] 4 = [0x48, 0xE2, 0x82, 0xAC]
   \<and> utf16_decode [0x48, 0x20AC] = Some [0x48, 0x20AC]
   \<and> utf8_encode [0x48, 0x20AC] = [0x48, 0xE2, 0x82, 0xAC]
   \<and> fst (ToUtf16 win32 [0x48, 0xE2, 0x82, 0xAC] world0) = Inr [0x48, 0x20AC]
   \<and> sizing_utf16 win32 [0x48, 0xE2, 0x82, 0xAC] = 2
   \<and> stored_utf16 win32 [0x48, 0xE2, 0x82, 0xAC] 2 = [0x48, 0x20AC]
   \<and> utf8_decode [0x48, 0xE2, 0x82, 0xAC] = Some [0x48, 0x20AC]
   \<and> utf16_encode [0x48, 0x20AC] = [0x48, 0x20AC]
   \<and> sizing_utf8 failing_platform [0x48] = 3
   \<and> converting_utf8 failing_platform [0x48] 3 = 0
   \<and> fst (ToUtf8 failing_platform [0x48] world0)
        = Inl (UnicodeConversionException ERROR_INSUFFICIENT_BUFFER FromUtf16ToUtf8
            ''Can't convert from UTF-16 to UTF-8 string (WideCharToMultiByte failed).'')
   \<and> sizing_utf16 failing_platform [0x48] = 3
   \<and> converting_utf16 failing_platform [0x48] 3 = 0
   \<and> fst (ToUtf16 failing_platform [0x48] world0)
        = Inl (UnicodeConversionException ERROR_INSUFFICIENT_BUFFER FromUtf8ToUtf16
            ''Can't convert from UTF-8 to UTF-16 string (MultiByteToWideChar failed).'')"
proof -
  have d16: "utf16_decode [0x48, 0x20AC] = Some [0x48, 0x20AC]"
    by (simp add: utf16_decode_def is_high_def is_low_def)
  have e8: "utf8_encode [0x48, 0x20AC] = [0x48, 0xE2, 0x82, 0xAC]"
    by (simp add: utf8_encode_def utf8_enc_def utf8_enc1_def)
  have d8: "utf8_decode [0x48, 0xE2, 0x82, 0xAC] = Some [0x48, 0x20AC]"
    by (simp add: utf8_decode_def utf8_dec1.simps is_cont_def)
  have e16: "utf16_encode [0x48, 0x20AC] = [0x48, 0x20AC]"
    by (simp add: utf16_encode_def utf16_enc_def utf16_enc1_def)
  have r8: "fst (ToUtf8 win32 [0x48, 0x20AC] world0) = Inr [0x48, 0xE2, 0x82, 0xAC]"
    by (simp add: ToUtf8_win32 d16 e8)
  have r16: "fst (ToUtf16 win32 [0x48, 0xE2, 0x82, 0xAC] world0) = Inr [0x48, 0x20AC]"
    by (simp add: ToUtf16_win32 INT_MAX_def d8 e16)
  have s8: "sizing_utf8 win32 [0x48, 0x20AC] = 4"
    "stored_utf8 win32 [0x48, 0x20AC] 4 = [0x48, 0xE2, 0x82, 0xAC]"
    by (simp_all add: sizing_utf8_def stored_utf8_def win32_WideCharToMultiByte_strict
        d16 e8 deliver_def)
  have s16: "sizing_utf16 win32 [0x48, 0xE2, 0x82, 0xAC] = 2"
    "stored_utf16 win32 [0x48, 0xE2, 0x82, 0xAC] 2 = [0x48, 0x20AC]"
    using win32_MultiByteToWideChar_strict [of "[0x48, 0xE2, 0x82, 0xAC]" 0]
      win32_MultiByteToWideChar_strict [of "[0x48, 0xE2, 0x82, 0xAC]" 2]
    by (simp_all add: sizing_utf16_def stored_utf16_def d8 e16 deliver_def)
  have f: "sizing_utf8 failing_platform [0x48] = 3"
    "converting_utf8 failing_platform [0x48] 3 = 0"
    "sizing_utf16 failing_platform [0x48] = 3"
    "converting_utf16 failing_platform [0x48] 3 = 0"
    by (simp_all add: sizing_utf8_def converting_utf8_def sizing_utf16_def
        converting_utf16_def failing_platform_def failed_def)
  have f8: "fst (ToUtf8 failing_platform [0x48] world0)
        = Inl (UnicodeConversionException ERROR_INSUFFICIENT_BUFFER FromUtf16ToUtf8
            ''Can't convert from UTF-16 to UTF-8 string (WideCharToMultiByte failed).'')"
    by (simp add: ToUtf8_nonempty Let_def f sizing_utf8_def failing_platform_def failed_def)
  have f16: "fst (ToUtf16 failing_platform [0x48] world0)
        = Inl (UnicodeConversionException ERROR_INSUFFICIENT_BUFFER FromUtf8ToUtf16
            ''Can't convert from UTF-8 to UTF-16 string (MultiByteToWideChar failed).'')"
    by (simp add: ToUtf16_nonempty INT_MAX_def Let_def f sizing_utf16_def
        failing_platform_def failed_def)
  from full_conversion_or_error
         [where P = win32 and ?utf16.0 = "[0x48, 0x20AC]" and w = world0
            and ?out8.0 = "[0x48, 0xE2, 0x82, 0xAC]" and ?utf8.0 = "[0x48, 0xE2, 0x82, 0xAC]"
            and ?out16.0 = "[0x48, 0x20AC]" and ?full8.0 = "[0x48, 0xE2, 0x82, 0xAC]"
            and ?full16.0 = "[0x48, 0x20AC]"]
       full_conversion_or_error
         [where P = failing_platform and ?utf16.0 = "[0x48]" and w = world0
            and ?utf8.0 = "[0x48]"]
       d16 e8 d8 e16 r8 r16 s8 s16 f f8 f16
  show ?thesis by simp
qed

text \<open>
  C6. On empty input \<open>ToUtf8\<close> returns the empty UTF-8 sequence and \<open>ToUtf16\<close> the
  empty UTF-16 sequence; the world is returned as it was, so no platform call was counted
  and the last-error code is untouched; neither result is an error.
\<close>

theorem empty_input_returns_empty:
  "ToUtf8 P [] w = (Inr [], w) \<and> ToUtf16 P [] w = (Inr [], w)"
  by (simp add: ToUtf8_def ToUtf16_def)

text \<open>
  C7. On the reference platform, \<open>ToUtf16\<close> of the bytes \<open>F0 9F 98 80\<close> (U+1F600) is
  the surrogate pair \<open>D83D DE00\<close>, and \<open>ToUtf8\<close> of that pair is the four bytes again.
\<close>

theorem grinning_face_scenario:
  "fst (ToUtf16 win32 [0xF0, 0x9F, 0x98, 0x80] w) = Inr [0xD83D, 0xDE00]
   \<and> fst (ToUtf8 win32 [0xD83D, 0xDE00] w') = Inr [0xF0, 0x9F, 0x98, 0x80]"
  by (simp add: ToUtf16_win32 ToUtf8_win32 INT_MAX_def utf8_decode_def utf16_decode_def
      utf8_dec1.simps is_cont_def is_high_def is_low_def utf8_encode_def utf16_encode_def
      utf8_enc_def utf16_enc_def utf8_enc1_def utf16_enc1_def)

text \<open>
  C8. On the reference platform, \<open>ToUtf16\<close> of the bytes \<open>63 61 66 C3 A9\<close> is the four
  units \<open>0063 0061 0066 00E9\<close>, and \<open>ToUtf8\<close> of those units is the five bytes again.
\<close>

theorem cafe_scenario:
  "fst (ToUtf16 win32 [0x63, 0x61, 0x66, 0xC3, 0xA9] w) = Inr [0x0063, 0x0061, 0x0066, 0x00E9]
   \<and> fst (ToUtf8 win32 [0x0063, 0x0061, 0x0066, 0x00E9] w') = Inr [0x63, 0x61, 0x66, 0xC3, 0xA9]"
  by (simp add: ToUtf16_win32 ToUtf8_win32 INT_MAX_def utf8_decode_def utf16_decode_def
      utf8_dec1.simps is_cont_def is_high_def is_low_def utf8_encode_def utf16_encode_def
      utf8_enc_def utf16_enc_def utf8_enc1_def utf16_enc1_def)

text \<open>
  C9. On any platform and any input, an exception raised by \<open>ToUtf8\<close> is a
  \<open>UnicodeConversionException\<close> with conversion type \<open>FromUtf16ToUtf8\<close>; it is never
  the \<open>overflow_error\<close> of the length check, which \<open>ToUtf8\<close> does not make.
\<close>

theorem ToUtf8_raises_only_conversion_errors:
  assumes "fst (ToUtf8 P utf16 w) = Inl e"
  shows "(\<exists>code message. e = UnicodeConversionException code FromUtf16ToUtf8 message)
         \<and> (\<forall>message. e \<noteq> overflow_error message)"
proof -
  from assms have ne: "utf16 \<noteq> []" by (auto simp: ToUtf8_def)
  from assms have "\<exists>code message. e = UnicodeConversionException code FromUtf16ToUtf8 message"
    unfolding ToUtf8_nonempty [OF ne] Let_def by (auto split: if_splits)
  then show ?thesis by auto
qed

theorem ToUtf8_raises_only_conversion_errors_witness:
  "fst (ToUtf8 win32 [0xDC00] world0)
     = Inl (UnicodeConversionException ERROR_NO_UNICODE_TRANSLATION FromUtf16ToUtf8
          ''Can't get result UTF-8 string length (WideCharToMultiByte failed).'')
   \<and> (\<exists>code message. UnicodeConversionException ERROR_NO_UNICODE_TRANSLATION FromUtf16ToUtf8
          ''Can't get result UTF-8 string length (WideCharToMultiByte failed).''
          = UnicodeConversionException code FromUtf16ToUtf8 message)"
proof -
  have f: "fst (ToUtf8 win32 [0xDC00] world0)
     = Inl (UnicodeConversionException ERROR_NO_UNICODE_TRANSLATION FromUtf16ToUtf8
          ''Can't get result UTF-8 string length (WideCharToMultiByte failed).'')"
    by (simp add: ToUtf8_win32 utf16_decode_def is_high_def is_low_def)
  from ToUtf8_raises_only_conversion_errors [OF f] f show ?thesis by simp
qed

text \<open>
  C10. On any platform: when the sizing pass and the second pass both return a nonzero
  count, the converter returns a sequence whose length is the count of the sizing pass,
  whatever the second count is; the second count is only compared with 0.
\<close>

theorem length_fixed_by_sizing_pass:
  "(utf16 \<noteq> [] \<and> sizing_utf8 P utf16 \<noteq> 0
      \<and> converting_utf8 P utf16 (sizing_utf8 P utf16) \<noteq> 0 \<longrightarrow>
      (\<exists>out. fst (ToUtf8 P utf16 w) = Inr out \<and> length out = sizing_utf8 P utf16))
   \<and> (utf8 \<noteq> [] \<and> int (length utf8) \<le> INT_MAX \<and> sizing_utf16 P utf8 \<noteq> 0
      \<and> converting_utf16 P utf8 (sizing_utf16 P utf8) \<noteq> 0 \<longrightarrow>
      (\<exists>out. fst (ToUtf16 P utf8 w) = Inr out \<and> length out = sizing_utf16 P utf8))"
  by (simp add: ToUtf8_nonempty ToUtf16_nonempty Let_def converting_utf8_def
      converting_utf16_def)

theorem length_fixed_by_sizing_pass_witness:
  "sizing_utf8 short_platform [0x263A] = 3
   \<and> converting_utf8 short_platform [0x263A] 3 = 1
   \<and> fst (ToUtf8 short_platform [0x263A] world0) = Inr [0x41, 0x20, 0x20]
   \<and> sizing_utf16 short_platform [0x7A] = 3
   \<and> converting_utf16 short_platform [0x7A] 3 = 1
   \<and> fst (ToUtf16 short_platform [0x7A] world0) = Inr [0x41, 0xCDCD, 0xCDCD]"
proof -
  have s: "sizing_utf8 short_platform [0x263A] = 3"
    "converting_utf8 short_platform [0x263A] 3 = 1"
    "sizing_utf16 short_platform [0x7A] = 3"
    "converting_utf16 short_platform [0x7A] 3 = 1"
    by (simp_all add: sizing_utf8_def converting_utf8_def sizing_utf16_def
        converting_utf16_def short_platform_def)
  have 8: "fst (ToUtf8 short_platform [0x263A] world0) = Inr [0x41, 0x20, 0x20]"
    by (simp add: ToUtf8_def Let_def call_WideCharToMultiByte_def short_platform_def
        space_filled_def store_def numeral_3_eq_3)
  have 16: "fst (ToUtf16 short_platform [0x7A] world0) = Inr [0x41, 0xCDCD, 0xCDCD]"
    by (simp add: ToUtf16_def Let_def SafeSizeToInt_def INT_MAX_def
        call_MultiByteToWideChar_def short_platform_def GetBuffer_def ReleaseBuffer_def
        store_def world0_def after_call_def numeral_3_eq_3 upt_rec)
  from length_fixed_by_sizing_pass [of "[0x263A]" short_platform world0 "[0x7A]"] s 8 16
  show ?thesis by simp
qed

end
